theory Spec2Isabelle
  imports Complex_Main "HOL-Library.Sublist"
begin

section \<open>JavaScript values used by the agent\<close>

text \<open>
  A JavaScript string is a sequence of UTF-16 code units and \<open>s.length\<close> counts them.
  The model uses \<^typ>\<open>string\<close>, one \<^typ>\<open>char\<close> per code unit, which covers the code
  units \<open>0x00\<close> to \<open>0xFF\<close>. On that range \<open>String.prototype.toLowerCase\<close> works code unit
  by code unit: it adds \<open>0x20\<close> to \<open>A\<close>..\<open>Z\<close> and to \<open>0xC0\<close>..\<open>0xDE\<close> except the
  multiplication sign \<open>0xD7\<close>, and leaves every other code unit alone.
\<close>

definition lower_char :: "char \<Rightarrow> char" where
  "lower_char c =
     (let n = (of_char c :: nat)
      in if (65 \<le> n \<and> n \<le> 90) \<or> (192 \<le> n \<and> n \<le> 222 \<and> n \<noteq> 215)
         then char_of (n + 32) else c)"

definition toLowerCase :: "string \<Rightarrow> string" where
  "toLowerCase s = map lower_char s"

text \<open>\<open>s.includes(t)\<close>: \<open>t\<close> occurs in \<open>s\<close> at some position.\<close>

fun str_includes :: "string \<Rightarrow> string \<Rightarrow> bool" where
  "str_includes [] t = (t = [])"
| "str_includes (c # cs) t = (prefix t (c # cs) \<or> str_includes cs t)"

text \<open>\<open>xs.join(sep)\<close> on an array of strings.\<close>

fun join :: "string \<Rightarrow> string list \<Rightarrow> string" where
  "join sep [] = []"
| "join sep [x] = x"
| "join sep (x # y # ys) = x @ sep @ join sep (y # ys)"

text \<open>
  Decimal rendering of a non-negative integer, as a template literal renders an array
  length.
\<close>

definition digit_char :: "nat \<Rightarrow> char" where
  "digit_char d = (''0123456789'' ! d)"

function string_of_nat :: "nat \<Rightarrow> string" where
  "string_of_nat n =
     (if n < 10 then [digit_char n] else string_of_nat (n div 10) @ [digit_char (n mod 10)])"
  by pat_completeness auto
termination
  by (relation "measure (\<lambda>n. n)") auto

declare string_of_nat.simps [simp del]

text \<open>
  \<open>Array.prototype.slice(start, end)\<close> for integer arguments: a negative index counts
  from the end, and both indices are clamped to the array. \<open>slice(start)\<close> is
  \<open>slice(start, length)\<close>. An argument \<open>-0\<close> is the index \<open>0\<close>.
\<close>

definition slice_index :: "nat \<Rightarrow> int \<Rightarrow> nat" where
  "slice_index len i = (if i < 0 then nat (max (int len + i) 0) else min (nat i) len)"

definition slice :: "'a list \<Rightarrow> int \<Rightarrow> int \<Rightarrow> 'a list" where
  "slice xs start stop =
     (let k = slice_index (length xs) start; final = slice_index (length xs) stop
      in take (final - k) (drop k xs))"

definition slice_from :: "'a list \<Rightarrow> int \<Rightarrow> 'a list" where
  "slice_from xs start = slice xs start (int (length xs))"

text \<open>
  A thrown value: \<open>null\<close>, \<open>undefined\<close>, or an \<open>Error\<close> object whose \<open>message\<close> property
  holds a string or \<open>undefined\<close> (\<open>None\<close>). The selector \<open>message\<close> is the optional access
  \<open>error?.message\<close>, which gives \<open>undefined\<close> on \<open>null\<close> and on \<open>undefined\<close>. The plain
  access \<open>error.message\<close> raises a \<open>TypeError\<close> on those two, and nothing catches it
  where the agent uses it.
\<close>

datatype js_error = ThrownNull | ThrownUndefined | JsError (message: "string option")
  where "message ThrownNull = None" | "message ThrownUndefined = None"

datatype uncaught = TypeError

definition get_message :: "js_error \<Rightarrow> uncaught + string option" where
  "get_message error =
     (case error of
        ThrownNull \<Rightarrow> Inl TypeError
      | ThrownUndefined \<Rightarrow> Inl TypeError
      | JsError m \<Rightarrow> Inr m)"

section \<open>Conversation turns\<close>

datatype role = User | Assistant | System

record CoreMessage =
  role :: role
  content :: string

text \<open>The role as the string the TypeScript union type holds, and its \<open>toUpperCase()\<close>.\<close>

fun role_string :: "role \<Rightarrow> string" where
  "role_string User = ''user''"
| "role_string Assistant = ''assistant''"
| "role_string System = ''system''"

fun role_toUpperCase :: "role \<Rightarrow> string" where
  "role_toUpperCase User = ''USER''"
| "role_toUpperCase Assistant = ''ASSISTANT''"
| "role_toUpperCase System = ''SYSTEM''"

section \<open>Budget estimate (the verbose variant of compaction.ts)\<close>

definition CONTEXT_LIMIT_TOKENS :: int where
  "CONTEXT_LIMIT_TOKENS = 150000"

definition ESTIMATED_TOKENS_PER_CHAR :: rat where
  "ESTIMATED_TOKENS_PER_CHAR = 0.25"

text \<open>
  \<open>messages.reduce((sum, msg) => sum + msg.content.length, 0)\<close>, then
  \<open>Math.ceil(totalChars * 0.25)\<close>. The product with \<open>0.25\<close> is exact in double precision
  for every array length, so the rational product is the value the code rounds up.
\<close>

definition estimateTokens :: "CoreMessage list \<Rightarrow> int" where
  "estimateTokens messages =
     (let totalChars = foldl (\<lambda>sum msg. sum + length (content msg)) 0 messages
      in \<lceil>of_nat totalChars * ESTIMATED_TOKENS_PER_CHAR\<rceil>)"

definition shouldCompact_messages :: "CoreMessage list \<Rightarrow> bool" where
  "shouldCompact_messages messages \<longleftrightarrow> estimateTokens messages > CONTEXT_LIMIT_TOKENS"

section \<open>Compaction (compaction.ts of the agent in index.ts)\<close>

text \<open>
  The repository holds two variants of the agent. The one in \<open>index.ts\<close> has the retry
  loop and the compaction with a \<open>keepLast\<close> parameter; they are modelled below. The
  verbose variant estimates the budget from the characters of the turns (above).
\<close>

definition COMPACT_THRESHOLD :: int where
  "COMPACT_THRESHOLD = 150000"

definition shouldCompact :: "int \<Rightarrow> bool" where
  "shouldCompact inputTokens \<longleftrightarrow> inputTokens > COMPACT_THRESHOLD"

definition isContextOverflowError :: "js_error \<Rightarrow> bool" where
  "isContextOverflowError error =
     (let msg = toLowerCase (case message error of None \<Rightarrow> [] | Some m \<Rightarrow> m)
      in str_includes msg ''context'' \<or> str_includes msg ''token'' \<or> str_includes msg ''too long'')"

text \<open>
  The summarisation request \<open>client.messages.create({model, max_tokens: 2048, messages:
  [{role: "user", content: prompt}]})\<close>. The remote model is outside the program, so the
  call is a parameter: given the prompt it either throws (\<open>Inl\<close>) or returns the content
  blocks of the response (\<open>Inr\<close>).
\<close>

datatype content_block =
  is_text: TextBlock (block_text: string)
  | ToolUseBlock (tool_use_id: string) (tool_name: string) (tool_input: string)

type_synonym summarizer = "string \<Rightarrow> js_error + content_block list"

definition summary_prompt :: "string \<Rightarrow> string" where
  "summary_prompt oldText =
     ''Summarize this conversation concisely, keeping key decisions, code changes, and context:\<newline>\<newline>''
       @ oldText"

text \<open>
  \<open>compactMessages(messages, keepLast = 6)\<close>. The \<open>try\<close> block holds the only call that
  can throw and its handler returns normally, so the function returns a list on every
  path. \<open>keepLast\<close> is a JavaScript number; \<open>slice\<close> truncates it to an integer.
\<close>

definition compactMessages :: "summarizer \<Rightarrow> CoreMessage list \<Rightarrow> int \<Rightarrow> CoreMessage list" where
  "compactMessages create messages keepLast =
     (let systemMsgs = filter (\<lambda>m. role m = System) messages;
          nonSystemMsgs = filter (\<lambda>m. role m \<noteq> System) messages;
          recentMsgs = slice_from nonSystemMsgs (- keepLast);
          oldMsgs = slice nonSystemMsgs 0 (- keepLast)
      in if length oldMsgs = 0 then messages
         else
           (let oldText =
                  join ''\<newline>\<newline>''
                    (map (\<lambda>m. role_toUpperCase (role m) @ '': '' @ content m) oldMsgs)
            in case create (summary_prompt oldText) of
                 Inr blocks \<Rightarrow>
                   (let summary = join [] (map block_text (filter is_text blocks))
                    in systemMsgs
                       @ [\<lparr>role = Assistant,
                           content = ''[Summary of '' @ string_of_nat (length oldMsgs)
                             @ '' previous messages]\<newline>'' @ summary\<rparr>]
                       @ recentMsgs)
               | Inl error \<Rightarrow> systemMsgs @ recentMsgs))"

definition DEFAULT_KEEP_LAST :: int where
  "DEFAULT_KEEP_LAST = 6"

section \<open>Message store (session.ts over the SQLite tables of db/schema.ts)\<close>

text \<open>
  The three tables are lists of rows in insertion order. \<open>crypto.randomUUID()\<close> and
  \<open>new Date()\<close> read the outside world: an operation receives them as an environment,
  \<open>randomUUID e i\<close> and \<open>now e i\<close> being the results of its \<open>i\<close>-th call. The UUIDs are
  taken to be fresh, and the storage engine is taken not to fail.
\<close>

type_synonym uuid = string
type_synonym timestamp = nat

record session_row =
  session_id :: string
  session_createdAt :: timestamp
  updatedAt :: timestamp

record message_row =
  message_id :: uuid
  sessionId :: string
  row_role :: role
  row_content :: string
  createdAt :: timestamp
  sequence :: int

record container_row =
  container_row_id :: uuid
  containerId :: string
  container_sessionId :: string
  container_createdAt :: timestamp

record database =
  sessions :: "session_row list"
  messages :: "message_row list"
  dockerContainers :: "container_row list"

record env =
  randomUUID :: "nat \<Rightarrow> uuid"
  now :: "nat \<Rightarrow> timestamp"

text \<open>\<open>initDb()\<close> on a new database file: the three tables exist and are empty.\<close>

definition initDb :: database where
  "initDb = \<lparr>sessions = [], messages = [], dockerContainers = []\<rparr>"

text \<open>\<open>select().from(messages).where(eq(messages.sessionId, sessionId))\<close>\<close>

definition messages_of :: "database \<Rightarrow> string \<Rightarrow> message_row list" where
  "messages_of d sid = filter (\<lambda>r. sessionId r = sid) (messages d)"

text \<open>
  \<open>if (sessionId)\<close> is false for \<open>undefined\<close> and for the empty string.
\<close>

definition getOrCreateSession :: "env \<Rightarrow> string option \<Rightarrow> database \<Rightarrow> string \<times> database" where
  "getOrCreateSession e sid d =
     (let existing =
            (case sid of
               None \<Rightarrow> []
             | Some s \<Rightarrow> if s = [] then [] else take 1 (filter (\<lambda>r. session_id r = s) (sessions d)))
      in case (sid, existing) of
           (Some s, _ # _) \<Rightarrow> (s, d)
         | _ \<Rightarrow>
             (let newSessionId = randomUUID e 0
              in (newSessionId,
                  d\<lparr>sessions := sessions d
                     @ [\<lparr>session_id = newSessionId, session_createdAt = now e 0,
                         updatedAt = now e 1\<rparr>]\<rparr>)))"

text \<open>
  \<open>saveMessage\<close>: the row with the highest sequence of the session
  (\<open>orderBy(desc(sequence)).limit(1)\<close>), \<open>(maxMessage[0]?.sequence ?? -1) + 1\<close>, the
  insert, then the update of the session row.
\<close>

definition saveMessage :: "env \<Rightarrow> string \<Rightarrow> role \<Rightarrow> string \<Rightarrow> database \<Rightarrow> database" where
  "saveMessage e sid r c d =
     (let maxMessage = take 1 (rev (sort_key sequence (messages_of d sid)));
          nextSequence = (case maxMessage of [] \<Rightarrow> - 1 | m # _ \<Rightarrow> sequence m) + 1;
          d1 = d\<lparr>messages := messages d
                 @ [\<lparr>message_id = randomUUID e 0, sessionId = sid, row_role = r,
                     row_content = c, createdAt = now e 0, sequence = nextSequence\<rparr>]\<rparr>
      in d1\<lparr>sessions :=
              map (\<lambda>s. if session_id s = sid then s\<lparr>updatedAt := now e 1\<rparr> else s)
                (sessions d1)\<rparr>)"

text \<open>
  The query of \<open>loadMessages\<close> (\<open>orderBy(asc(sequence))\<close>; the sort keeps rows of equal
  sequence in insertion order, where SQLite promises no order), and \<open>loadMessages\<close>
  itself, which keeps role and content.
\<close>

definition selectMessages :: "database \<Rightarrow> string \<Rightarrow> message_row list" where
  "selectMessages d sid = sort_key sequence (messages_of d sid)"

definition loadMessages :: "database \<Rightarrow> string \<Rightarrow> CoreMessage list" where
  "loadMessages d sid =
     map (\<lambda>msg. \<lparr>role = row_role msg, content = row_content msg\<rparr>) (selectMessages d sid)"

definition clearMessages :: "string \<Rightarrow> database \<Rightarrow> database" where
  "clearMessages sid d = d\<lparr>messages := filter (\<lambda>r. sessionId r \<noteq> sid) (messages d)\<rparr>"

text \<open>The \<open>for\<close> loop of \<open>saveCompactedMessages\<close>, from index \<open>i\<close> on.\<close>

function insertCompacted :: "env \<Rightarrow> string \<Rightarrow> CoreMessage list \<Rightarrow> nat \<Rightarrow> database \<Rightarrow> database" where
  "insertCompacted e sid compactedMessages i d =
     (if i < length compactedMessages
      then (let msg = compactedMessages ! i
            in insertCompacted e sid compactedMessages (i + 1)
                 (d\<lparr>messages := messages d
                    @ [\<lparr>message_id = randomUUID e i, sessionId = sid, row_role = role msg,
                        row_content = content msg, createdAt = now e i,
                        sequence = int i\<rparr>]\<rparr>))
      else d)"
  by pat_completeness auto
termination
  by (relation "measure (\<lambda>(e, sid, compactedMessages, i, d). length compactedMessages - i)") auto

declare insertCompacted.simps [simp del]

definition saveCompactedMessages :: "env \<Rightarrow> string \<Rightarrow> CoreMessage list \<Rightarrow> database \<Rightarrow> database" where
  "saveCompactedMessages e sid compactedMessages d =
     insertCompacted e sid compactedMessages 0 (clearMessages sid d)"

section \<open>Sandbox handle (docker.ts)\<close>

text \<open>
  \<open>String.prototype.trim\<close> on the modelled code units (tab, line feed, vertical tab, form
  feed, carriage return, space, no-break space) and \<open>s.split(" ")\<close>.
\<close>

definition is_js_space :: "char \<Rightarrow> bool" where
  "is_js_space c = ((of_char c :: nat) \<in> {9, 10, 11, 12, 13, 32, 160})"

definition trim :: "string \<Rightarrow> string" where
  "trim s = rev (dropWhile is_js_space (rev (dropWhile is_js_space s)))"

fun split_char :: "char \<Rightarrow> string \<Rightarrow> string list" where
  "split_char sep [] = [[]]"
| "split_char sep (c # cs) =
     (if c = sep then [] # split_char sep cs
      else (case split_char sep cs of
              [] \<Rightarrow> [[c]]
            | w # ws \<Rightarrow> (c # w) # ws))"

text \<open>
  \<open>saveContainerInfo\<close>: look for a row of the session, insert when there is none.
\<close>

definition saveContainerInfo :: "env \<Rightarrow> string \<Rightarrow> string \<Rightarrow> database \<Rightarrow> database" where
  "saveContainerInfo e sid cid d =
     (let existing = take 1 (filter (\<lambda>r. container_sessionId r = sid) (dockerContainers d))
      in if length existing = 0
         then d\<lparr>dockerContainers := dockerContainers d
                @ [\<lparr>container_row_id = randomUUID e 0, containerId = cid,
                    container_sessionId = sid, container_createdAt = now e 0\<rparr>]\<rparr>
         else d)"

text \<open>
  The shell commands of \<open>ensureDockerContainer\<close> run outside the program. Each is a
  parameter that throws (\<open>Inl\<close>) or returns: the standard output of \<open>docker ps -a\<close>,
  \<open>docker start\<close> of an id, the standard output of the first and of the second
  \<open>docker run\<close> of the call, and \<open>docker rm -f\<close>.
\<close>

record docker =
  docker_ps_all :: "js_error + string"
  docker_start :: "string \<Rightarrow> js_error + unit"
  docker_run :: "nat \<Rightarrow> js_error + string"
  docker_rm :: "js_error + unit"

text \<open>\<open>String(error)\<close>, as a template literal renders a thrown value.\<close>

definition error_toString :: "js_error \<Rightarrow> string" where
  "error_toString e =
     (case e of
        ThrownNull \<Rightarrow> ''null''
      | ThrownUndefined \<Rightarrow> ''undefined''
      | JsError None \<Rightarrow> ''Error''
      | JsError (Some m) \<Rightarrow> if m = [] then ''Error'' else ''Error: '' @ m)"

text \<open>
  The inner \<open>try\<close> block: \<open>Some\<close> when it returns a container id, \<open>None\<close> when it falls
  through to the creation of a container (empty listing, or a caught exception).
\<close>

definition reuseContainer :: "env \<Rightarrow> docker \<Rightarrow> string \<Rightarrow> database \<Rightarrow> (string \<times> database) option" where
  "reuseContainer e dk sid d =
     (case docker_ps_all dk of
        Inl error \<Rightarrow> None
      | Inr stdout \<Rightarrow>
          if trim stdout \<noteq> []
          then (case split_char (CHR '' '') (trim stdout) of
                  [] \<Rightarrow> None
                | cid # statusParts \<Rightarrow>
                    (let status = join '' '' statusParts
                     in if str_includes status ''Up''
                        then Some (cid, saveContainerInfo e sid cid d)
                        else (case docker_start dk cid of
                                Inl error \<Rightarrow> None
                              | Inr u \<Rightarrow> Some (cid, saveContainerInfo e sid cid d))))
          else None)"

definition ensureDockerContainer ::
  "env \<Rightarrow> docker \<Rightarrow> string \<Rightarrow> database \<Rightarrow> (js_error + string) \<times> database" where
  "ensureDockerContainer e dk sid d =
     (case reuseContainer e dk sid d of
        Some (cid, d') \<Rightarrow> (Inr cid, d')
      | None \<Rightarrow>
          (case docker_run dk 0 of
             Inr out \<Rightarrow>
               (let trimmedId = trim out in (Inr trimmedId, saveContainerInfo e sid trimmedId d))
           | Inl error \<Rightarrow>
               (case docker_rm dk of
                  Inl recreateError \<Rightarrow>
                    (Inl (JsError (Some (''Failed to create Docker container: ''
                        @ error_toString recreateError))), d)
                | Inr u \<Rightarrow>
                    (case docker_run dk 1 of
                       Inl recreateError \<Rightarrow>
                         (Inl (JsError (Some (''Failed to create Docker container: ''
                             @ error_toString recreateError))), d)
                     | Inr out \<Rightarrow>
                         (let trimmedId = trim out
                          in (Inr trimmedId, saveContainerInfo e sid trimmedId d))))))"

section \<open>Agent loop (the retry loop of main in index.ts)\<close>

text \<open>
  \<open>chat(messages, containerId)\<close> talks to the remote model and to the sandbox; the loop
  only sees whether it throws or returns. It is a parameter, indexed by the attempt so
  that two calls with the same working list may differ. \<open>storage_env\<close> gives the
  environment of the \<open>k\<close>-th storage operation of the loop. The trace records, in order,
  the calls the loop makes; it is not part of the program's state.
\<close>

record chat_result =
  response :: string
  inputTokens :: int
  outputTokens :: int

datatype event =
  is_chat: ChatCall nat
  | Compacted int
  | ReplaceAll "CoreMessage list"
  | Appended role string

record world =
  chat :: "nat \<Rightarrow> CoreMessage list \<Rightarrow> js_error + chat_result"
  summarize :: summarizer
  storage_env :: "nat \<Rightarrow> env"

record agent_state =
  db :: database
  working :: "CoreMessage list"
  lastInputTokens :: int
  tick :: nat
  trace :: "event list"

text \<open>
  The three statements both branches share: \<open>compactMessages(core, keepLast)\<close>,
  \<open>saveCompactedMessages(currentSessionId, compacted)\<close> and the assignment of the
  non-system turns to \<open>messages\<close>. The working list holds string contents only, so the
  map to \<open>core\<close> leaves it as it is.
\<close>

definition compactAndPersist :: "world \<Rightarrow> string \<Rightarrow> int \<Rightarrow> agent_state \<Rightarrow> agent_state" where
  "compactAndPersist w sid keepLast st =
     (let core = working st;
          compacted = compactMessages (summarize w) core keepLast
      in st\<lparr>db := saveCompactedMessages (storage_env w (tick st)) sid compacted (db st),
            working := filter (\<lambda>m. role m \<noteq> System) compacted,
            tick := tick st + 1,
            trace := trace st @ [Compacted keepLast, ReplaceAll compacted]\<rparr>)"

text \<open>The body of the \<open>try\<close> block after \<open>chat\<close> has returned.\<close>

definition onChatSuccess :: "world \<Rightarrow> string \<Rightarrow> chat_result \<Rightarrow> agent_state \<Rightarrow> agent_state" where
  "onChatSuccess w sid res st =
     (let st1 = st\<lparr>lastInputTokens := inputTokens res\<rparr>;
          st2 = (if trim (response res) \<noteq> []
                 then st1\<lparr>db := saveMessage (storage_env w (tick st1)) sid Assistant
                               (response res) (db st1),
                           working := working st1 @ [\<lparr>role = Assistant, content = response res\<rparr>],
                           tick := tick st1 + 1,
                           trace := trace st1 @ [Appended Assistant (response res)]\<rparr>
                 else st1)
      in if shouldCompact (lastInputTokens st2)
         then compactAndPersist w sid DEFAULT_KEEP_LAST st2
         else st2)"

text \<open>
  The template literal \<open>`Error: ${error.message}`\<close>, given the value of \<open>error.message\<close>;
  it renders a missing message as \<open>undefined\<close>.
\<close>

definition error_text :: "string option \<Rightarrow> string" where
  "error_text m = ''Error: '' @ (case m of None \<Rightarrow> ''undefined'' | Some t \<Rightarrow> t)"

text \<open>
  \<open>for (let attempt = 0; attempt < 2; attempt++)\<close>. The \<open>else\<close> branch of the handler
  reads \<open>error.message\<close>; on a thrown \<open>null\<close> or \<open>undefined\<close> that raises inside the
  handler and the exception leaves the loop (\<open>Inl\<close>).
\<close>

function attemptLoop :: "world \<Rightarrow> string \<Rightarrow> nat \<Rightarrow> agent_state \<Rightarrow> uncaught + agent_state" where
  "attemptLoop w sid attempt st =
     (if attempt < 2
      then (case chat w attempt (working st) of
              Inr res \<Rightarrow>
                Inr (onChatSuccess w sid res (st\<lparr>trace := trace st @ [ChatCall attempt]\<rparr>))
            | Inl error \<Rightarrow>
                if isContextOverflowError error \<and> attempt = 0
                then attemptLoop w sid (attempt + 1)
                       (compactAndPersist w sid 4 (st\<lparr>trace := trace st @ [ChatCall attempt]\<rparr>))
                else (case get_message error of
                        Inl raised \<Rightarrow> Inl raised
                      | Inr m \<Rightarrow>
                          Inr (st\<lparr>working := working st
                                   @ [\<lparr>role = Assistant, content = error_text m\<rparr>],
                                 trace := trace st @ [ChatCall attempt]\<rparr>)))
      else Inr st)"
  by pat_completeness auto
termination
  by (relation "measure (\<lambda>(w, sid, attempt, st). 2 - attempt)") auto

declare attemptLoop.simps [simp del]

section \<open>Vocabulary of the specification\<close>

text \<open>
  The words the specification uses for the parts of a compaction: the system turns \<open>S\<close>,
  the non-system turns \<open>M\<close>, the last \<open>k\<close> of a list, the turns before those, and the
  text block rendered from the discarded turns (one \<open>ROLE: content\<close> entry per turn,
  entries separated by a blank line).
\<close>

definition system_turns :: "CoreMessage list \<Rightarrow> CoreMessage list" where
  "system_turns turns = filter (\<lambda>m. role m = System) turns"

definition non_system_turns :: "CoreMessage list \<Rightarrow> CoreMessage list" where
  "non_system_turns turns = filter (\<lambda>m. role m \<noteq> System) turns"

definition last_turns :: "nat \<Rightarrow> 'a list \<Rightarrow> 'a list" where
  "last_turns k xs = drop (length xs - k) xs"

definition discarded_turns :: "nat \<Rightarrow> 'a list \<Rightarrow> 'a list" where
  "discarded_turns k xs = take (length xs - k) xs"

definition render_turns :: "CoreMessage list \<Rightarrow> string" where
  "render_turns old =
     join ''\<newline>\<newline>'' (map (\<lambda>m. role_toUpperCase (role m) @ '': '' @ content m) old)"

section \<open>Sample inputs\<close>

text \<open>A summarisation call that succeeds, and one that throws.\<close>

definition summarize_ok :: summarizer where
  "summarize_ok prompt = Inr [TextBlock ''Summary text.'']"

definition summarize_fails :: summarizer where
  "summarize_fails prompt = Inl (JsError (Some ''529 overloaded''))"

text \<open>The history of the specification's example: one system turn and ten others.\<close>

definition example_system :: CoreMessage where
  "example_system = \<lparr>role = System, content = ''S1''\<rparr>"

definition example_turns :: "CoreMessage list" where
  "example_turns =
     [\<lparr>role = User, content = ''t1''\<rparr>, \<lparr>role = Assistant, content = ''t2''\<rparr>,
      \<lparr>role = User, content = ''t3''\<rparr>, \<lparr>role = Assistant, content = ''t4''\<rparr>,
      \<lparr>role = User, content = ''t5''\<rparr>, \<lparr>role = Assistant, content = ''t6''\<rparr>,
      \<lparr>role = User, content = ''t7''\<rparr>, \<lparr>role = Assistant, content = ''t8''\<rparr>,
      \<lparr>role = User, content = ''t9''\<rparr>, \<lparr>role = Assistant, content = ''t10''\<rparr>]"

section \<open>Vocabulary of the message store\<close>

text \<open>
  The row the loop of \<open>saveCompactedMessages\<close> inserts for index \<open>i\<close>; the storage
  operations of the repository as data, so that any order of calls is a list; the next
  sequence number in the specification's words (one more than the maximum of the session,
  0 when the session has no turn); and the fact that no two rows of a session share a
  sequence number.
\<close>

definition compacted_row :: "env \<Rightarrow> string \<Rightarrow> CoreMessage list \<Rightarrow> nat \<Rightarrow> message_row" where
  "compacted_row e sid turns i =
     \<lparr>message_id = randomUUID e i, sessionId = sid, row_role = role (turns ! i),
      row_content = content (turns ! i), createdAt = now e i, sequence = int i\<rparr>"

datatype store_op =
  SaveMessage env string role string
  | SaveCompactedMessages env string "CoreMessage list"
  | ClearMessages string
  | GetOrCreateSession env "string option"
  | SaveContainerInfo env string string

fun apply_op :: "store_op \<Rightarrow> database \<Rightarrow> database" where
  "apply_op (SaveMessage e sid r c) d = saveMessage e sid r c d"
| "apply_op (SaveCompactedMessages e sid turns) d = saveCompactedMessages e sid turns d"
| "apply_op (ClearMessages sid) d = clearMessages sid d"
| "apply_op (GetOrCreateSession e sid) d = snd (getOrCreateSession e sid d)"
| "apply_op (SaveContainerInfo e sid cid) d = saveContainerInfo e sid cid d"

definition run_ops :: "store_op list \<Rightarrow> database \<Rightarrow> database" where
  "run_ops ops d = foldl (\<lambda>d' op. apply_op op d') d ops"

definition next_sequence :: "database \<Rightarrow> string \<Rightarrow> int" where
  "next_sequence d sid =
     (if messages_of d sid = [] then 0 else Max (set (map sequence (messages_of d sid))) + 1)"

definition sequences_distinct :: "database \<Rightarrow> bool" where
  "sequences_distinct d \<longleftrightarrow> (\<forall>sid. distinct (map sequence (messages_of d sid)))"

definition appended_row :: "env \<Rightarrow> string \<Rightarrow> role \<Rightarrow> string \<Rightarrow> database \<Rightarrow> message_row" where
  "appended_row e sid r c d =
     \<lparr>message_id = randomUUID e 0, sessionId = sid, row_role = r, row_content = c,
      createdAt = now e 0, sequence = next_sequence d sid\<rparr>"

text \<open>A clock and a generator of identifiers, and a run of five operations on two sessions.\<close>

definition sample_env :: "nat \<Rightarrow> env" where
  "sample_env t = \<lparr>randomUUID = (\<lambda>i. ''uuid-'' @ string_of_nat t @ ''-'' @ string_of_nat i),
                   now = (\<lambda>i. t + i)\<rparr>"

definition example_ops :: "store_op list" where
  "example_ops =
     [SaveMessage (sample_env 100) ''s1'' User ''hello'',
      SaveMessage (sample_env 200) ''s1'' Assistant ''hi'',
      SaveMessage (sample_env 300) ''s2'' User ''other'',
      SaveCompactedMessages (sample_env 400) ''s1''
        [\<lparr>role = Assistant, content = ''summary''\<rparr>, \<lparr>role = User, content = ''hello''\<rparr>,
         \<lparr>role = Assistant, content = ''hi''\<rparr>],
      SaveMessage (sample_env 500) ''s1'' User ''next'']"

section \<open>Vocabulary and sample inputs of the sandbox handle and the agent loop\<close>

text \<open>
  A session has a stored handle when the table holds a row for it. The sample listing is
  empty, as after the container was removed, and \<open>docker run\<close> prints a new id.
\<close>

definition has_row :: "database \<Rightarrow> string \<Rightarrow> bool" where
  "has_row d sid \<longleftrightarrow> filter (\<lambda>r. container_sessionId r = sid) (dockerContainers d) \<noteq> []"

definition example_docker :: docker where
  "example_docker =
     \<lparr>docker_ps_all = Inr '''',
      docker_start = (\<lambda>cid. Inr ()),
      docker_run = (\<lambda>k. Inr ''new456\<newline>''),
      docker_rm = Inr ()\<rparr>"

definition example_handles :: database where
  "example_handles =
     \<lparr>sessions = [\<lparr>session_id = ''s1'', session_createdAt = 1, updatedAt = 1\<rparr>],
      messages = [],
      dockerContainers =
        [\<lparr>container_row_id = ''row-1'', containerId = ''old123'', container_sessionId = ''s1'',
          container_createdAt = 2\<rparr>]\<rparr>"

text \<open>
  Three behaviours of the remote model: every call fails with a network error; every
  call fails with an overflow message; the first call overflows and the second answers.
  The sample state is the loop's state after the user's turn \<open>hello\<close> has been saved.
\<close>

definition network_error_world :: world where
  "network_error_world =
     \<lparr>chat = (\<lambda>attempt msgs. Inl (JsError (Some ''Connection reset''))),
      summarize = summarize_ok,
      storage_env = sample_env\<rparr>"

definition overflow_world :: world where
  "overflow_world =
     \<lparr>chat = (\<lambda>attempt msgs. Inl (JsError (Some ''prompt is too long: 210000 tokens''))),
      summarize = summarize_ok,
      storage_env = sample_env\<rparr>"

definition overflow_once_world :: world where
  "overflow_once_world =
     \<lparr>chat = (\<lambda>attempt msgs.
         if attempt = 0 then Inl (JsError (Some ''prompt is too long: 210000 tokens''))
         else Inr \<lparr>response = ''Done.'', inputTokens = 1200, outputTokens = 30\<rparr>),
      summarize = summarize_ok,
      storage_env = sample_env\<rparr>"

definition example_state :: agent_state where
  "example_state =
     \<lparr>db = saveMessage (sample_env 100) ''s1'' User ''hello'' initDb,
      working = [\<lparr>role = User, content = ''hello''\<rparr>],
      lastInputTokens = 0, tick = 0, trace = []\<rparr>"

text \<open>
  The \<open>catch\<close> branch of the verbose variant of the agent: it reads \<open>error.message\<close> and
  saves the error turn with \<open>saveMessage\<close> before it appends it to the working list.
\<close>

definition onChatFailure_verbose ::
  "world \<Rightarrow> string \<Rightarrow> js_error \<Rightarrow> agent_state \<Rightarrow> uncaught + agent_state" where
  "onChatFailure_verbose w sid error st =
     (case get_message error of
        Inl raised \<Rightarrow> Inl raised
      | Inr m \<Rightarrow>
          (let errorMessage = error_text m
           in Inr (st\<lparr>db := saveMessage (storage_env w (tick st)) sid Assistant errorMessage (db st),
                      working := working st @ [\<lparr>role = Assistant, content = errorMessage\<rparr>],
                      tick := tick st + 1,
                      trace := trace st @ [Appended Assistant errorMessage]\<rparr>)))"

section \<open>Properties of the budget estimate\<close>

lemma foldl_totalChars:
  "foldl (\<lambda>sum msg. sum + length (content msg)) a msgs =
     a + (\<Sum>m\<leftarrow>msgs. length (content m))"
  by (induction msgs arbitrary: a) simp_all

lemma ceiling_quarter: "\<lceil>(of_nat n :: rat) * 0.25\<rceil> = (int n + 3) div 4"
proof -
  have "(of_nat n :: rat) * 0.25 = of_int (int n) / of_int 4"
    by simp
  then have "\<lceil>(of_nat n :: rat) * 0.25\<rceil> = - (- int n div 4)"
    by (simp only: ceiling_divide_eq_div)
  then show ?thesis
    by presburger
qed

lemma ceiling_quarter_real: "\<lceil>(0.25 :: real) * real n\<rceil> = (int n + 3) div 4"
proof -
  have "(0.25 :: real) * real n = of_int (int n) / of_int 4"
    by simp
  then have "\<lceil>(0.25 :: real) * real n\<rceil> = - (- int n div 4)"
    by (simp only: ceiling_divide_eq_div)
  then show ?thesis
    by presburger
qed

lemma estimateTokens_div:
  "estimateTokens msgs = (int (\<Sum>m\<leftarrow>msgs. length (content m)) + 3) div 4"
  by (simp only: estimateTokens_def Let_def ESTIMATED_TOKENS_PER_CHAR_def foldl_totalChars
      ceiling_quarter add_0)

text \<open>
  C5. The estimate is the ceiling of 0.25 times the total number of characters of all
  turn contents, so it never decreases when that total grows; \<open>shouldCompact\<close> holds
  exactly when the score is strictly above 150000. With 600001 characters the estimate is
  150001 and compaction is due; with 600000 it is 150000 and compaction is not due.
\<close>

theorem estimateTokens_shouldCompact:
  "estimateTokens msgs = \<lceil>(0.25 :: real) * real (\<Sum>m\<leftarrow>msgs. length (content m))\<rceil>
   \<and> ((\<Sum>m\<leftarrow>a. length (content m)) \<le> (\<Sum>m\<leftarrow>b. length (content m))
        \<longrightarrow> estimateTokens a \<le> estimateTokens b)
   \<and> (shouldCompact_messages msgs \<longleftrightarrow> estimateTokens msgs > 150000)
   \<and> (shouldCompact (estimateTokens msgs) \<longleftrightarrow> estimateTokens msgs > 150000)
   \<and> ((\<Sum>m\<leftarrow>msgs. length (content m)) = 600001
        \<longrightarrow> estimateTokens msgs = 150001 \<and> shouldCompact_messages msgs)
   \<and> ((\<Sum>m\<leftarrow>msgs. length (content m)) = 600000
        \<longrightarrow> estimateTokens msgs = 150000 \<and> \<not> shouldCompact_messages msgs)"
proof -
  have ceil: "estimateTokens msgs = \<lceil>(0.25 :: real) * real (\<Sum>m\<leftarrow>msgs. length (content m))\<rceil>"
    by (simp only: estimateTokens_div ceiling_quarter_real)
  have mono: "(\<Sum>m\<leftarrow>a. length (content m)) \<le> (\<Sum>m\<leftarrow>b. length (content m))
        \<longrightarrow> estimateTokens a \<le> estimateTokens b"
    unfolding estimateTokens_div by (auto intro: zdiv_mono1)
  have thr1: "shouldCompact_messages msgs \<longleftrightarrow> estimateTokens msgs > 150000"
    by (simp add: shouldCompact_messages_def CONTEXT_LIMIT_TOKENS_def)
  have thr2: "shouldCompact (estimateTokens msgs) \<longleftrightarrow> estimateTokens msgs > 150000"
    by (simp add: shouldCompact_def COMPACT_THRESHOLD_def)
  have ex1: "(\<Sum>m\<leftarrow>msgs. length (content m)) = 600001
        \<longrightarrow> estimateTokens msgs = 150001 \<and> shouldCompact_messages msgs"
    by (simp add: estimateTokens_div shouldCompact_messages_def CONTEXT_LIMIT_TOKENS_def)
  have ex2: "(\<Sum>m\<leftarrow>msgs. length (content m)) = 600000
        \<longrightarrow> estimateTokens msgs = 150000 \<and> \<not> shouldCompact_messages msgs"
    by (simp add: estimateTokens_div shouldCompact_messages_def CONTEXT_LIMIT_TOKENS_def)
  from ceil mono thr1 thr2 ex1 ex2 show ?thesis
    by blast
qed

theorem estimateTokens_shouldCompact_witness:
  "estimateTokens [\<lparr>role = User, content = replicate 600001 (CHR ''a'')\<rparr>] = 150001
   \<and> shouldCompact_messages [\<lparr>role = User, content = replicate 600001 (CHR ''a'')\<rparr>]
   \<and> estimateTokens [\<lparr>role = User, content = replicate 600000 (CHR ''a'')\<rparr>] = 150000
   \<and> \<not> shouldCompact_messages [\<lparr>role = User, content = replicate 600000 (CHR ''a'')\<rparr>]
   \<and> estimateTokens [\<lparr>role = User, content = replicate 600000 (CHR ''a'')\<rparr>]
       \<le> estimateTokens [\<lparr>role = User, content = replicate 600001 (CHR ''a'')\<rparr>]"
  using estimateTokens_shouldCompact
    [of "[\<lparr>role = User, content = replicate 600001 (CHR ''a'')\<rparr>]"
        "[\<lparr>role = User, content = replicate 600000 (CHR ''a'')\<rparr>]"
        "[\<lparr>role = User, content = replicate 600001 (CHR ''a'')\<rparr>]"]
    estimateTokens_shouldCompact
    [of "[\<lparr>role = User, content = replicate 600000 (CHR ''a'')\<rparr>]"
        "[\<lparr>role = User, content = replicate 600000 (CHR ''a'')\<rparr>]"
        "[\<lparr>role = User, content = replicate 600001 (CHR ''a'')\<rparr>]"]
  by simp

section \<open>Properties of compaction\<close>

lemma slice_old_empty: "int (length xs) \<le> k \<Longrightarrow> slice xs 0 (- k) = []"
  by (auto simp: slice_def slice_index_def Let_def)

lemma slice_old_take:
  "1 \<le> k \<Longrightarrow> k < int (length xs) \<Longrightarrow> slice xs 0 (- k) = discarded_turns (nat k) xs"
  by (auto simp: slice_def slice_index_def Let_def max_def nat_diff_distrib' discarded_turns_def)

lemma slice_from_recent:
  "1 \<le> k \<Longrightarrow> k < int (length xs) \<Longrightarrow> slice_from xs (- k) = last_turns (nat k) xs"
  by (auto simp: slice_from_def slice_def slice_index_def Let_def max_def nat_diff_distrib'
      last_turns_def)

lemma length_partition_role:
  "length (system_turns msgs) + length (non_system_turns msgs) = length msgs"
  unfolding system_turns_def non_system_turns_def by (induction msgs) auto

lemma join_empty_sep: "join [] xs = concat xs"
  by (induction "[] :: string" xs rule: join.induct) simp_all

text \<open>
  With \<open>keepLast \<ge> 1\<close> and more than \<open>keepLast\<close> non-system turns, the function makes
  the summarisation call on the rendered discarded turns and returns one of two lists.
\<close>

lemma compactMessages_old:
  assumes "1 \<le> keepLast" and "keepLast < int (length (non_system_turns turns))"
  shows "compactMessages create turns keepLast =
     (case create (summary_prompt
             (render_turns (discarded_turns (nat keepLast) (non_system_turns turns)))) of
        Inr blocks \<Rightarrow>
          system_turns turns
          @ [\<lparr>role = Assistant,
              content = ''[Summary of ''
                @ string_of_nat (length (discarded_turns (nat keepLast) (non_system_turns turns)))
                @ '' previous messages]\<newline>'' @ concat (map block_text (filter is_text blocks))\<rparr>]
          @ last_turns (nat keepLast) (non_system_turns turns)
      | Inl error \<Rightarrow> system_turns turns @ last_turns (nat keepLast) (non_system_turns turns))"
proof -
  let ?M = "filter (\<lambda>m. role m \<noteq> System) turns"
  from assms have lt: "keepLast < int (length ?M)"
    by (simp add: non_system_turns_def)
  have old: "slice ?M 0 (- keepLast) = discarded_turns (nat keepLast) ?M"
    using assms(1) lt by (rule slice_old_take)
  have recent: "slice_from ?M (- keepLast) = last_turns (nat keepLast) ?M"
    using assms(1) lt by (rule slice_from_recent)
  have nonempty: "length (discarded_turns (nat keepLast) ?M) \<noteq> 0"
    using assms(1) lt by (simp add: discarded_turns_def)
  show ?thesis
    unfolding compactMessages_def Let_def old recent
    using nonempty
    by (simp add: non_system_turns_def system_turns_def render_turns_def join_empty_sep
        split: sum.splits)
qed

lemma string_of_nat_digit: "n < 10 \<Longrightarrow> string_of_nat n = [digit_char n]"
  by (simp add: string_of_nat.simps)

text \<open>
  C1 (as amended). For \<open>keepLast \<ge> 1\<close> and a turn list with more than \<open>keepLast\<close>
  non-system turns, when the summarisation call succeeds, the result is the system turns,
  then one assistant turn whose content is \<open>[Summary of n previous messages]\<close>, a line
  feed and the returned text (\<open>n\<close> the number of discarded turns), then the last
  \<open>keepLast\<close> non-system turns in their order. The output is shorter than the input by
  \<open>n - 1\<close>: never longer, and strictly shorter exactly when at least two turns are
  discarded.
\<close>

theorem compactMessages_summary:
  assumes "1 \<le> keepLast"
    and "keepLast < int (length (non_system_turns turns))"
    and "create (summary_prompt
           (render_turns (discarded_turns (nat keepLast) (non_system_turns turns)))) = Inr blocks"
  shows "compactMessages create turns keepLast =
           system_turns turns
           @ [\<lparr>role = Assistant,
               content = ''[Summary of ''
                 @ string_of_nat (length (non_system_turns turns) - nat keepLast)
                 @ '' previous messages]\<newline>'' @ concat (map block_text (filter is_text blocks))\<rparr>]
           @ last_turns (nat keepLast) (non_system_turns turns)
         \<and> length (last_turns (nat keepLast) (non_system_turns turns)) = nat keepLast
         \<and> length (compactMessages create turns keepLast)
             + (length (non_system_turns turns) - nat keepLast) = length turns + 1
         \<and> length (compactMessages create turns keepLast) \<le> length turns
         \<and> (length (compactMessages create turns keepLast) < length turns
              \<longleftrightarrow> keepLast + 1 < int (length (non_system_turns turns)))"
proof -
  let ?M = "non_system_turns turns"
  let ?out = "compactMessages create turns keepLast"
  have n: "length (discarded_turns (nat keepLast) ?M) = length ?M - nat keepLast"
    by (simp add: discarded_turns_def)
  have out: "?out = system_turns turns
           @ [\<lparr>role = Assistant,
               content = ''[Summary of '' @ string_of_nat (length ?M - nat keepLast)
                 @ '' previous messages]\<newline>'' @ concat (map block_text (filter is_text blocks))\<rparr>]
           @ last_turns (nat keepLast) ?M"
    using compactMessages_old [OF assms(1,2), of create] assms(3) by (simp add: n)
  have recent: "length (last_turns (nat keepLast) ?M) = nat keepLast"
    using assms(1,2) by (simp add: last_turns_def)
  have len: "length ?out = length (system_turns turns) + 1 + nat keepLast"
    by (simp add: out recent)
  have total: "length turns = length (system_turns turns) + length ?M"
    by (simp add: length_partition_role)
  have sum: "length ?out + (length ?M - nat keepLast) = length turns + 1"
    using assms(1,2) len total by linarith
  have le: "length ?out \<le> length turns"
    using assms(1,2) len total by linarith
  have strict: "length ?out < length turns \<longleftrightarrow> keepLast + 1 < int (length ?M)"
    using assms(1,2) len total by linarith
  from out recent sum le strict show ?thesis
    by blast
qed

theorem compactMessages_summary_witness:
  "compactMessages summarize_ok (example_system # example_turns) 6 =
     [\<lparr>role = System, content = ''S1''\<rparr>,
      \<lparr>role = Assistant, content = ''[Summary of 4 previous messages]\<newline>Summary text.''\<rparr>,
      \<lparr>role = User, content = ''t5''\<rparr>, \<lparr>role = Assistant, content = ''t6''\<rparr>,
      \<lparr>role = User, content = ''t7''\<rparr>, \<lparr>role = Assistant, content = ''t8''\<rparr>,
      \<lparr>role = User, content = ''t9''\<rparr>, \<lparr>role = Assistant, content = ''t10''\<rparr>]
   \<and> length (compactMessages summarize_ok (example_system # example_turns) 6) = 8
   \<and> length (example_system # example_turns) = 11"
  using compactMessages_summary
    [of 6 "example_system # example_turns" summarize_ok "[TextBlock ''Summary text.'']"]
  by (simp add: summarize_ok_def example_system_def example_turns_def non_system_turns_def
      system_turns_def last_turns_def string_of_nat_digit digit_char_def)

text \<open>
  The claim as stated fails on the length: with the default \<open>keepLast = 6\<close>, one system
  turn and seven other turns, the summarisation succeeds, one turn is discarded and one
  summary turn takes its place, so the output is as long as the input.
\<close>

theorem compactMessages_length_counterexample:
  "6 < int (length (non_system_turns (example_system # drop 3 example_turns)))
   \<and> summarize_ok (summary_prompt (render_turns
         (discarded_turns 6 (non_system_turns (example_system # drop 3 example_turns)))))
       = Inr [TextBlock ''Summary text.'']
   \<and> length (compactMessages summarize_ok (example_system # drop 3 example_turns) 6) = 8
   \<and> length (example_system # drop 3 example_turns) = 8
   \<and> \<not> length (compactMessages summarize_ok (example_system # drop 3 example_turns) 6)
         < length (example_system # drop 3 example_turns)"
  by (simp add: compactMessages_def Let_def slice_def slice_from_def slice_index_def
      summarize_ok_def example_system_def example_turns_def non_system_turns_def)

text \<open>
  C2. When the number of non-system turns is at most \<open>keepLast\<close>, the function returns
  its input, whatever the summarisation call would do.
\<close>

theorem compactMessages_noop:
  "int (length (non_system_turns turns)) \<le> keepLast \<Longrightarrow>
     compactMessages create turns keepLast = turns"
  by (simp add: compactMessages_def Let_def slice_old_empty non_system_turns_def)

theorem compactMessages_noop_witness:
  "int (length (non_system_turns (example_system # take 3 example_turns))) \<le> 6
   \<and> compactMessages summarize_ok (example_system # take 3 example_turns) 6
       = example_system # take 3 example_turns"
  using compactMessages_noop [of "example_system # take 3 example_turns" 6 summarize_ok]
  by (simp add: example_system_def example_turns_def non_system_turns_def)

text \<open>
  C3. For \<open>keepLast \<ge> 1\<close> and a turn list with more than \<open>keepLast\<close> non-system turns,
  when the summarisation call throws, the function returns (the handler of its \<open>try\<close>
  block returns normally) exactly the system turns followed by the last \<open>keepLast\<close>
  non-system turns: \<open>keepLast\<close> of them, no summary turn (every turn of the result is a
  turn of the input), and fewer turns than the input.
\<close>

theorem compactMessages_fallback:
  assumes "1 \<le> keepLast"
    and "keepLast < int (length (non_system_turns turns))"
    and "create (summary_prompt
           (render_turns (discarded_turns (nat keepLast) (non_system_turns turns)))) = Inl err"
  shows "compactMessages create turns keepLast =
           system_turns turns @ last_turns (nat keepLast) (non_system_turns turns)
         \<and> length (last_turns (nat keepLast) (non_system_turns turns)) = nat keepLast
         \<and> set (compactMessages create turns keepLast) \<subseteq> set turns
         \<and> length (compactMessages create turns keepLast)
             = length (system_turns turns) + nat keepLast
         \<and> length (compactMessages create turns keepLast) < length turns"
proof -
  let ?M = "non_system_turns turns"
  let ?out = "compactMessages create turns keepLast"
  have out: "?out = system_turns turns @ last_turns (nat keepLast) ?M"
    using compactMessages_old [OF assms(1,2), of create] assms(3) by simp
  have recent: "length (last_turns (nat keepLast) ?M) = nat keepLast"
    using assms(1,2) by (simp add: last_turns_def)
  have "set (last_turns (nat keepLast) ?M) \<subseteq> set ?M"
    unfolding last_turns_def by (rule set_drop_subset)
  then have sub: "set ?out \<subseteq> set turns"
    unfolding out by (auto simp: system_turns_def non_system_turns_def)
  have len: "length ?out = length (system_turns turns) + nat keepLast"
    by (simp add: out recent)
  have total: "length turns = length (system_turns turns) + length ?M"
    by (simp add: length_partition_role)
  have less: "length ?out < length turns"
    using assms(1,2) len total by linarith
  from out recent sub len less show ?thesis
    by blast
qed

theorem compactMessages_fallback_witness:
  "compactMessages summarize_fails (example_system # example_turns) 6 =
     [\<lparr>role = System, content = ''S1''\<rparr>,
      \<lparr>role = User, content = ''t5''\<rparr>, \<lparr>role = Assistant, content = ''t6''\<rparr>,
      \<lparr>role = User, content = ''t7''\<rparr>, \<lparr>role = Assistant, content = ''t8''\<rparr>,
      \<lparr>role = User, content = ''t9''\<rparr>, \<lparr>role = Assistant, content = ''t10''\<rparr>]
   \<and> length (compactMessages summarize_fails (example_system # example_turns) 6) = 7
   \<and> length (example_system # example_turns) = 11"
  using compactMessages_fallback
    [of 6 "example_system # example_turns" summarize_fails "JsError (Some ''529 overloaded'')"]
  by (simp add: summarize_fails_def example_system_def example_turns_def non_system_turns_def
      system_turns_def last_turns_def)

text \<open>
  With \<open>keepLast = 0\<close>, \<open>slice(-0)\<close> is \<open>slice(0)\<close>: every non-system turn is recent and
  none is old, so the function returns its input before the \<open>try\<close> block and makes no
  summarisation call.
\<close>

lemma compactMessages_keepLast_zero: "compactMessages create turns 0 = turns"
  by (simp add: compactMessages_def Let_def slice_def slice_index_def)

section \<open>Properties of the overflow classifier\<close>

lemma str_includes_sublist: "str_includes s t \<longleftrightarrow> sublist t s"
  by (induction s) (simp_all add: sublist_Cons_right)

lemma lower_char_idem: "lower_char (lower_char c) = lower_char c"
proof -
  have *: "of_char (char_of (n + 32 :: nat)) = n + 32" if "n \<le> 222" for n
    using that by (simp add: of_char_of)
  show ?thesis
    unfolding lower_char_def Let_def by (auto simp: *)
qed

lemma toLowerCase_idem: "toLowerCase (toLowerCase s) = toLowerCase s"
  by (simp add: toLowerCase_def lower_char_idem)

text \<open>
  C8. The classifier holds exactly when the lower-cased message (the empty string when
  there is none) contains \<open>context\<close>, \<open>token\<close> or \<open>too long\<close> as a substring; a message
  and its lower-cased form are classified alike.
\<close>

theorem isContextOverflowError_iff:
  "(isContextOverflowError error \<longleftrightarrow>
      sublist ''context'' (toLowerCase (case message error of None \<Rightarrow> [] | Some m \<Rightarrow> m))
      \<or> sublist ''token'' (toLowerCase (case message error of None \<Rightarrow> [] | Some m \<Rightarrow> m))
      \<or> sublist ''too long'' (toLowerCase (case message error of None \<Rightarrow> [] | Some m \<Rightarrow> m)))
   \<and> isContextOverflowError (JsError (Some (toLowerCase m'))) = isContextOverflowError (JsError (Some m'))"
  by (simp add: isContextOverflowError_def Let_def str_includes_sublist toLowerCase_idem)

theorem isContextOverflowError_iff_witness:
  "isContextOverflowError (JsError (Some ''Prompt is TOO LONG: 210000 > 200000''))
   \<and> sublist ''too long'' (toLowerCase ''Prompt is TOO LONG: 210000 > 200000'')
   \<and> isContextOverflowError (JsError (Some ''Exceeded Context window''))
   \<and> isContextOverflowError (JsError (Some ''max_tokens must be positive''))
   \<and> \<not> isContextOverflowError (JsError (Some ''Connection reset''))
   \<and> \<not> isContextOverflowError (JsError None)"
proof -
  have f: "sublist ''too long'' (toLowerCase ''Prompt is TOO LONG: 210000 > 200000'')"
    by code_simp
  have a: "isContextOverflowError (JsError (Some ''Prompt is TOO LONG: 210000 > 200000''))"
    using f isContextOverflowError_iff
      [of "JsError (Some ''Prompt is TOO LONG: 210000 > 200000'')" "[]"]
    by simp
  have b: "isContextOverflowError (JsError (Some ''Exceeded Context window''))"
    by code_simp
  have c: "isContextOverflowError (JsError (Some ''max_tokens must be positive''))"
    by code_simp
  have d: "\<not> isContextOverflowError (JsError (Some ''Connection reset''))"
    by code_simp
  have e: "\<not> isContextOverflowError (JsError None)"
    by code_simp
  from a b c d e f show ?thesis
    by blast
qed

section \<open>Properties of the message store\<close>

lemma insertCompacted_messages:
  "i \<le> length turns \<Longrightarrow>
   insertCompacted e sid turns i d =
     d\<lparr>messages := messages d @ map (compacted_row e sid turns) [i..<length turns]\<rparr>"
proof (induction e sid turns i d rule: insertCompacted.induct)
  case (1 e sid turns i d)
  show ?case
  proof (cases "i < length turns")
    case True
    then have "insertCompacted e sid turns i d =
        insertCompacted e sid turns (i + 1)
          (d\<lparr>messages := messages d @ [compacted_row e sid turns i]\<rparr>)"
      by (subst insertCompacted.simps) (simp add: compacted_row_def Let_def)
    also have "\<dots> = d\<lparr>messages := (messages d @ [compacted_row e sid turns i])
         @ map (compacted_row e sid turns) [i + 1..<length turns]\<rparr>"
      using True "1.IH" [OF True refl] by (simp add: compacted_row_def)
    finally show ?thesis
      using True by (simp add: upt_conv_Cons)
  next
    case False
    with "1.prems" have "i = length turns" by simp
    then show ?thesis
      by (subst insertCompacted.simps) simp
  qed
qed

lemma saveCompactedMessages_eq:
  "saveCompactedMessages e sid turns d =
     d\<lparr>messages := filter (\<lambda>r. sessionId r \<noteq> sid) (messages d)
        @ map (compacted_row e sid turns) [0..<length turns]\<rparr>"
  by (simp add: saveCompactedMessages_def insertCompacted_messages clearMessages_def)

lemma messages_of_saveCompacted:
  "messages_of (saveCompactedMessages e sid turns d) sid' =
     (if sid' = sid then map (compacted_row e sid turns) [0..<length turns]
      else messages_of d sid')"
proof -
  have a: "filter (\<lambda>r. sessionId r = sid) (map (compacted_row e sid turns) xs)
      = map (compacted_row e sid turns) xs" for xs
    by (induction xs) (simp_all add: compacted_row_def)
  have b: "sid' \<noteq> sid \<Longrightarrow> filter (\<lambda>r. sessionId r = sid') (map (compacted_row e sid turns) xs) = []" for xs
    by (induction xs) (simp_all add: compacted_row_def)
  have c: "sid' \<noteq> sid \<Longrightarrow> filter (\<lambda>r. sessionId r = sid') (filter (\<lambda>r. sessionId r \<noteq> sid) xs)
     = filter (\<lambda>r. sessionId r = sid') xs" for xs :: "message_row list"
    by (induction xs) auto
  have d: "filter (\<lambda>r. sessionId r = sid) (filter (\<lambda>r. sessionId r \<noteq> sid) xs) = []" for xs :: "message_row list"
    by (induction xs) auto
  show ?thesis
    by (auto simp add: messages_of_def saveCompactedMessages_eq a b d intro!: filter_cong)
qed

lemma sort_key_sorted_id: "sorted (map f xs) \<Longrightarrow> sort_key f xs = xs"
  by (induction xs) (auto simp: insort_is_Cons)

lemma sequence_compacted_rows:
  "map sequence (map (compacted_row e sid turns) xs) = map int xs"
  by (simp add: compacted_row_def)

lemma sorted_map_int_upt: "sorted (map int [i..<j])"
  by (simp add: sorted_map strict_sorted_iff sorted_wrt_map) 

lemma core_of_compacted_rows:
  "map (\<lambda>msg. \<lparr>role = row_role msg, content = row_content msg\<rparr>)
     (map (compacted_row e sid turns) [0..<length turns]) = turns"
proof (rule nth_equalityI)
  show "length (map (\<lambda>msg. \<lparr>role = row_role msg, content = row_content msg\<rparr>)
     (map (compacted_row e sid turns) [0..<length turns])) = length turns"
    by simp
next
  fix i
  assume "i < length (map (\<lambda>msg. \<lparr>role = row_role msg, content = row_content msg\<rparr>)
     (map (compacted_row e sid turns) [0..<length turns]))"
  then have "i < length turns"
    by simp
  then show "map (\<lambda>msg. \<lparr>role = row_role msg, content = row_content msg\<rparr>)
     (map (compacted_row e sid turns) [0..<length turns]) ! i = turns ! i"
    by (simp add: compacted_row_def)
qed

lemma sorted_compacted_rows:
  "sorted (map sequence (map (compacted_row e sid turns) [i..<j]))"
  by (simp only: sequence_compacted_rows sorted_map_int_upt)

lemma selectMessages_saveCompacted:
  "selectMessages (saveCompactedMessages e sid turns d) sid =
     map (compacted_row e sid turns) [0..<length turns]"
proof -
  have "messages_of (saveCompactedMessages e sid turns d) sid =
      map (compacted_row e sid turns) [0..<length turns]"
    by (simp add: messages_of_saveCompacted)
  then show ?thesis
    unfolding selectMessages_def
    by (simp only: sort_key_sorted_id [OF sorted_compacted_rows])
qed

lemma sorted_map_le_last:
  "sorted (map f ys) \<Longrightarrow> y \<in> set ys \<Longrightarrow> f y \<le> f (last ys)"
  by (induction ys) (auto split: if_splits)

lemma last_sort_key_max:
  assumes "rows \<noteq> []"
  shows "f (last (sort_key f rows)) = Max (set (map f rows))"
proof -
  let ?s = "sort_key f rows"
  have ne: "?s \<noteq> []"
    using assms by (metis length_sort list.size(3) length_0_conv)
  have mem: "last ?s \<in> set rows"
    using ne last_in_set [of ?s] by simp
  have ub: "f r \<le> f (last ?s)" if "r \<in> set rows" for r
    using sorted_map_le_last [of f ?s r] that by simp
  show ?thesis
  proof (rule sym, rule Max_eqI)
    show "finite (set (map f rows))" by simp
    show "y \<le> f (last ?s)" if "y \<in> set (map f rows)" for y
      using that ub by auto
    show "f (last ?s) \<in> set (map f rows)"
      using mem by auto
  qed
qed

lemma saveMessage_nextSequence:
  "(case take 1 (rev (sort_key sequence (messages_of d sid))) of
      [] \<Rightarrow> - 1 | m # x \<Rightarrow> sequence m) + 1 = next_sequence d sid"
proof (cases "messages_of d sid = []")
  case True
  then show ?thesis
    by (simp add: next_sequence_def)
next
  case False
  let ?s = "sort_key sequence (messages_of d sid)"
  have ne: "?s \<noteq> []"
    using False by (metis length_sort list.size(3) length_0_conv)
  then have "take 1 (rev ?s) = [last ?s]"
    by (cases ?s rule: rev_cases) simp_all
  then show ?thesis
    using False by (simp add: next_sequence_def last_sort_key_max)
qed

lemma saveMessage_messages:
  "messages (saveMessage e sid r c d) = messages d @ [appended_row e sid r c d]"
  unfolding saveMessage_def Let_def saveMessage_nextSequence
  by (simp add: appended_row_def)

lemma messages_of_saveMessage:
  "messages_of (saveMessage e sid r c d) sid' =
     (if sid' = sid then messages_of d sid @ [appended_row e sid r c d] else messages_of d sid')"
  by (simp add: messages_of_def saveMessage_messages appended_row_def)

lemma next_sequence_above:
  "m \<in> set (messages_of d sid) \<Longrightarrow> sequence m < next_sequence d sid"
proof -
  assume m: "m \<in> set (messages_of d sid)"
  then have "sequence m \<le> Max (set (map sequence (messages_of d sid)))"
    by (intro Max_ge) auto
  with m show ?thesis
    by (auto simp: next_sequence_def)
qed

lemma sequences_distinct_initDb: "sequences_distinct initDb"
  by (simp add: sequences_distinct_def initDb_def messages_of_def)

lemma sequences_distinct_saveMessage:
  assumes "sequences_distinct d"
  shows "sequences_distinct (saveMessage e sid r c d)"
  unfolding sequences_distinct_def
proof
  fix sid'
  show "distinct (map sequence (messages_of (saveMessage e sid r c d) sid'))"
  proof (cases "sid' = sid")
    case True
    have "sequence (appended_row e sid r c d) \<notin> set (map sequence (messages_of d sid))"
    proof
      assume "sequence (appended_row e sid r c d) \<in> set (map sequence (messages_of d sid))"
      then obtain m where "m \<in> set (messages_of d sid)" and "sequence m = next_sequence d sid"
        by (auto simp: appended_row_def)
      with next_sequence_above [of m d sid] show False
        by simp
    qed
    with assms True show ?thesis
      by (simp add: messages_of_saveMessage sequences_distinct_def)
  next
    case False
    with assms show ?thesis
      by (simp add: messages_of_saveMessage sequences_distinct_def)
  qed
qed

lemma sequences_distinct_saveCompacted:
  assumes "sequences_distinct d"
  shows "sequences_distinct (saveCompactedMessages e sid turns d)"
  unfolding sequences_distinct_def
proof
  fix sid'
  have "distinct (map int [0..<length turns])"
    by (simp add: distinct_map inj_on_def)
  with assms show "distinct (map sequence (messages_of (saveCompactedMessages e sid turns d) sid'))"
    by (simp add: messages_of_saveCompacted sequences_distinct_def sequence_compacted_rows
        del: map_map)
qed

lemma sequences_distinct_clearMessages:
  assumes "sequences_distinct d"
  shows "sequences_distinct (clearMessages sid d)"
  unfolding sequences_distinct_def
proof
  fix sid'
  have "messages_of (clearMessages sid d) sid' = (if sid' = sid then [] else messages_of d sid')"
    by (auto simp: messages_of_def clearMessages_def intro!: filter_cong)
  with assms show "distinct (map sequence (messages_of (clearMessages sid d) sid'))"
    by (simp add: sequences_distinct_def)
qed

lemma messages_getOrCreateSession: "messages (snd (getOrCreateSession e sid d)) = messages d"
  by (auto simp: getOrCreateSession_def Let_def split: option.splits list.splits)

lemma messages_saveContainerInfo: "messages (saveContainerInfo e sid cid d) = messages d"
  by (simp add: saveContainerInfo_def Let_def)

lemma sequences_distinct_apply_op:
  "sequences_distinct d \<Longrightarrow> sequences_distinct (apply_op op d)"
proof (cases op)
  case (GetOrCreateSession e sid)
  assume "sequences_distinct d"
  then show ?thesis
    by (simp add: GetOrCreateSession sequences_distinct_def messages_of_def
        messages_getOrCreateSession)
next
  case (SaveContainerInfo e sid cid)
  assume "sequences_distinct d"
  then show ?thesis
    by (simp add: SaveContainerInfo sequences_distinct_def messages_of_def
        messages_saveContainerInfo)
qed (simp_all add: sequences_distinct_saveMessage sequences_distinct_saveCompacted
    sequences_distinct_clearMessages)

lemma sequences_distinct_run_ops:
  "sequences_distinct d \<Longrightarrow> sequences_distinct (run_ops ops d)"
  unfolding run_ops_def
  by (induction ops arbitrary: d) (simp_all add: sequences_distinct_apply_op)

lemma sessions_insertCompacted:
  "sessions (insertCompacted e sid turns i d) = sessions d"
  by (induction e sid turns i d rule: insertCompacted.induct)
    (subst insertCompacted.simps, simp add: Let_def)

lemma example_ops_run: "map sequence (selectMessages (run_ops example_ops initDb) ''s1'') = [0, 1, 2, 3]"
  by code_simp

lemma example_ops_load:
  "loadMessages (run_ops example_ops initDb) ''s1'' =
     [\<lparr>role = Assistant, content = ''summary''\<rparr>, \<lparr>role = User, content = ''hello''\<rparr>,
      \<lparr>role = Assistant, content = ''hi''\<rparr>, \<lparr>role = User, content = ''next''\<rparr>]"
  by code_simp

text \<open>
  C6. After any sequence of storage operations on a new database, \<open>loadMessages\<close>
  returns the role and content of the rows its query selects, one turn per row of the
  session; the query returns exactly the rows of the session, with strictly increasing
  sequence numbers, hence without duplicates; and \<open>saveMessage\<close> appends one row whose
  sequence number is one more than the maximum of the session, or 0 when the session has
  no row.
\<close>

theorem load_strictly_increasing:
  "loadMessages (run_ops ops initDb) sid
     = map (\<lambda>r. \<lparr>role = row_role r, content = row_content r\<rparr>)
         (selectMessages (run_ops ops initDb) sid)
   \<and> length (loadMessages (run_ops ops initDb) sid)
       = length (messages_of (run_ops ops initDb) sid)
   \<and> sorted_wrt (<) (map sequence (selectMessages (run_ops ops initDb) sid))
   \<and> distinct (map sequence (selectMessages (run_ops ops initDb) sid))
   \<and> set (selectMessages (run_ops ops initDb) sid) = set (messages_of (run_ops ops initDb) sid)
   \<and> messages (saveMessage e sid r c (run_ops ops initDb))
       = messages (run_ops ops initDb)
         @ [\<lparr>message_id = randomUUID e 0, sessionId = sid, row_role = r, row_content = c,
             createdAt = now e 0, sequence = next_sequence (run_ops ops initDb) sid\<rparr>]"
proof -
  let ?d = "run_ops ops initDb"
  have inv: "sequences_distinct ?d"
    by (rule sequences_distinct_run_ops [OF sequences_distinct_initDb])
  have dist: "distinct (map sequence (selectMessages ?d sid))"
    using inv by (simp add: sequences_distinct_def selectMessages_def distinct_map)
  have srt: "sorted (map sequence (selectMessages ?d sid))"
    by (simp add: selectMessages_def)
  have strict: "sorted_wrt (<) (map sequence (selectMessages ?d sid))"
    using srt dist by (simp only: strict_sorted_iff)
  have same: "set (selectMessages ?d sid) = set (messages_of ?d sid)"
    by (simp add: selectMessages_def)
  have load: "loadMessages ?d sid
     = map (\<lambda>r. \<lparr>role = row_role r, content = row_content r\<rparr>) (selectMessages ?d sid)"
    by (simp add: loadMessages_def)
  have len: "length (loadMessages ?d sid) = length (messages_of ?d sid)"
    by (simp add: loadMessages_def selectMessages_def)
  have app: "messages (saveMessage e sid r c ?d) = messages ?d
         @ [\<lparr>message_id = randomUUID e 0, sessionId = sid, row_role = r, row_content = c,
             createdAt = now e 0, sequence = next_sequence ?d sid\<rparr>]"
    by (simp add: saveMessage_messages appended_row_def)
  from load len strict dist same app show ?thesis
    by blast
qed

theorem load_strictly_increasing_witness:
  "loadMessages (run_ops example_ops initDb) ''s1'' =
     [\<lparr>role = Assistant, content = ''summary''\<rparr>, \<lparr>role = User, content = ''hello''\<rparr>,
      \<lparr>role = Assistant, content = ''hi''\<rparr>, \<lparr>role = User, content = ''next''\<rparr>]
   \<and> map sequence (selectMessages (run_ops example_ops initDb) ''s1'') = [0, 1, 2, 3]
   \<and> length (messages_of (run_ops example_ops initDb) ''s1'') = 4
   \<and> sorted_wrt (<) (map sequence (selectMessages (run_ops example_ops initDb) ''s1''))
   \<and> distinct (map sequence (selectMessages (run_ops example_ops initDb) ''s1''))"
  using load_strictly_increasing [of example_ops "''s1''" "sample_env 600" User "''more''"]
    example_ops_run example_ops_load
  by simp

text \<open>
  C7. After \<open>saveCompactedMessages\<close>, \<open>loadMessages\<close> returns exactly the given turns in
  the given order; their rows carry the sequence numbers \<open>0\<close> to \<open>N - 1\<close>; and the rows
  of the session are those \<open>N\<close> new rows and no other.
\<close>

theorem replaceAll_then_load:
  "loadMessages (saveCompactedMessages e sid turns d) sid = turns
   \<and> map sequence (selectMessages (saveCompactedMessages e sid turns d) sid)
       = map int [0..<length turns]
   \<and> messages_of (saveCompactedMessages e sid turns d) sid
       = map (compacted_row e sid turns) [0..<length turns]"
  by (simp add: loadMessages_def selectMessages_saveCompacted core_of_compacted_rows
      sequence_compacted_rows messages_of_saveCompacted del: map_map)

theorem replaceAll_then_load_witness:
  "loadMessages
     (saveCompactedMessages (sample_env 700) ''s1''
        [\<lparr>role = Assistant, content = ''summary''\<rparr>, \<lparr>role = User, content = ''next''\<rparr>]
        (run_ops example_ops initDb)) ''s1''
     = [\<lparr>role = Assistant, content = ''summary''\<rparr>, \<lparr>role = User, content = ''next''\<rparr>]
   \<and> map sequence (selectMessages
         (saveCompactedMessages (sample_env 700) ''s1''
            [\<lparr>role = Assistant, content = ''summary''\<rparr>, \<lparr>role = User, content = ''next''\<rparr>]
            (run_ops example_ops initDb)) ''s1'') = [0, 1]"
  using replaceAll_then_load
    [of "sample_env 700" "''s1''"
        "[\<lparr>role = Assistant, content = ''summary''\<rparr>, \<lparr>role = User, content = ''next''\<rparr>]"
        "run_ops example_ops initDb"]
  by (simp add: upt_rec)

text \<open>
  C9. \<open>saveCompactedMessages\<close> leaves the sessions table as it is, once or any number of
  times after a \<open>saveMessage\<close>; \<open>saveMessage\<close> sets \<open>updatedAt\<close> of the session's row to
  the time of its second clock reading.
\<close>

theorem saveCompactedMessages_keeps_sessions:
  "sessions (saveCompactedMessages e sid turns d) = sessions d
   \<and> sessions (foldl (\<lambda>d' (e', turns'). saveCompactedMessages e' sid turns' d')
                 (saveMessage e sid r c d) compactions)
       = sessions (saveMessage e sid r c d)
   \<and> map updatedAt (filter (\<lambda>s. session_id s = sid) (sessions (saveMessage e sid r c d)))
       = map (\<lambda>s. now e 1) (filter (\<lambda>s. session_id s = sid) (sessions d))"
proof -
  have one: "sessions (saveCompactedMessages e' sid' turns' d') = sessions d'" for e' sid' turns' d'
    by (simp add: saveCompactedMessages_def sessions_insertCompacted clearMessages_def)
  have many: "sessions (foldl (\<lambda>d' (e', turns'). saveCompactedMessages e' sid turns' d') d0 compactions)
       = sessions d0" for d0
    by (induction compactions arbitrary: d0) (simp_all add: one split: prod.splits)
  have bump: "map updatedAt (filter (\<lambda>s. session_id s = sid) (sessions (saveMessage e sid r c d)))
       = map (\<lambda>s. now e 1) (filter (\<lambda>s. session_id s = sid) (sessions d))"
    unfolding saveMessage_def Let_def
    by (induction "sessions d") (simp_all add: filter_map o_def)
  from one many bump show ?thesis
    by blast
qed

theorem saveCompactedMessages_keeps_sessions_witness:
  "sessions (saveMessage (sample_env 100) ''s1'' User ''hello''
      \<lparr>sessions = [\<lparr>session_id = ''s1'', session_createdAt = 1, updatedAt = 1\<rparr>],
       messages = [], dockerContainers = []\<rparr>)
     = [\<lparr>session_id = ''s1'', session_createdAt = 1, updatedAt = 101\<rparr>]
   \<and> sessions (saveCompactedMessages (sample_env 400) ''s1'' [\<lparr>role = Assistant, content = ''summary''\<rparr>]
        (saveMessage (sample_env 100) ''s1'' User ''hello''
          \<lparr>sessions = [\<lparr>session_id = ''s1'', session_createdAt = 1, updatedAt = 1\<rparr>],
           messages = [], dockerContainers = []\<rparr>))
     = [\<lparr>session_id = ''s1'', session_createdAt = 1, updatedAt = 101\<rparr>]"
proof -
  have a: "sessions (saveMessage (sample_env 100) ''s1'' User ''hello''
      \<lparr>sessions = [\<lparr>session_id = ''s1'', session_createdAt = 1, updatedAt = 1\<rparr>],
       messages = [], dockerContainers = []\<rparr>)
     = [\<lparr>session_id = ''s1'', session_createdAt = 1, updatedAt = 101\<rparr>]"
    by (simp add: saveMessage_def Let_def sample_env_def)
  show ?thesis
    using a saveCompactedMessages_keeps_sessions
      [of "sample_env 400" "''s1''" "[\<lparr>role = Assistant, content = ''summary''\<rparr>]"
          "saveMessage (sample_env 100) ''s1'' User ''hello''
             \<lparr>sessions = [\<lparr>session_id = ''s1'', session_createdAt = 1, updatedAt = 1\<rparr>],
              messages = [], dockerContainers = []\<rparr>"]
    by simp
qed

section \<open>Properties of the sandbox handle\<close>

lemma saveContainerInfo_existing: "has_row d sid \<Longrightarrow> saveContainerInfo e sid cid d = d"
  by (cases "filter (\<lambda>r. container_sessionId r = sid) (dockerContainers d)")
    (simp_all add: saveContainerInfo_def has_row_def Let_def)

lemma saveContainerInfo_new:
  "\<not> has_row d sid \<Longrightarrow>
     saveContainerInfo e sid cid d =
       d\<lparr>dockerContainers := dockerContainers d
           @ [\<lparr>container_row_id = randomUUID e 0, containerId = cid,
               container_sessionId = sid, container_createdAt = now e 0\<rparr>]\<rparr>"
  by (simp add: saveContainerInfo_def has_row_def Let_def)

lemma reuseContainer_existing:
  "has_row d sid \<Longrightarrow> reuseContainer e dk sid d = Some (cid, d') \<Longrightarrow> d' = d"
  by (auto simp: reuseContainer_def Let_def saveContainerInfo_existing
      split: sum.splits list.splits if_splits)

lemma ensureDockerContainer_existing:
  assumes "has_row d sid"
  shows "snd (ensureDockerContainer e dk sid d) = d"
proof (cases "reuseContainer e dk sid d")
  case None
  then show ?thesis
    using assms
    by (simp add: ensureDockerContainer_def Let_def saveContainerInfo_existing split: sum.splits)
next
  case (Some p)
  then obtain cid d' where p: "p = (cid, d')" by (cases p)
  with Some assms have "d' = d"
    using reuseContainer_existing by blast
  with Some p show ?thesis
    by (simp add: ensureDockerContainer_def)
qed

lemma reuseContainer_blank:
  "docker_ps_all dk = Inr out \<Longrightarrow> trim out = [] \<Longrightarrow> reuseContainer e dk sid d = None"
  by (simp add: reuseContainer_def)

lemma ensureDockerContainer_recreate_after_rm:
  assumes "has_row d sid" and "reuseContainer e dk sid d = None"
    and "docker_run dk 0 = Inl err" and "docker_rm dk = Inr u" and "docker_run dk 1 = Inr out"
  shows "ensureDockerContainer e dk sid d = (Inr (trim out), d)"
  using assms by (simp add: ensureDockerContainer_def saveContainerInfo_existing Let_def)

text \<open>
  C10. \<open>saveContainerInfo\<close> returns the database unchanged when the session has a row, and
  appends one row when it has none. So \<open>ensureDockerContainer\<close> never changes the
  database of a session that has a row; when the listing is empty and \<open>docker run\<close>
  succeeds it returns the new container id while the row keeps the id it had.
\<close>

theorem saveContainerInfo_write_once:
  "(has_row d sid \<longrightarrow> saveContainerInfo e sid cid d = d)
   \<and> (\<not> has_row d sid \<longrightarrow>
        dockerContainers (saveContainerInfo e sid cid d) =
          dockerContainers d
          @ [\<lparr>container_row_id = randomUUID e 0, containerId = cid,
              container_sessionId = sid, container_createdAt = now e 0\<rparr>])
   \<and> (has_row d sid \<longrightarrow> snd (ensureDockerContainer e dk sid d) = d)
   \<and> (has_row d sid \<and> docker_ps_all dk = Inr listing \<and> trim listing = []
        \<and> docker_run dk 0 = Inr out
        \<longrightarrow> ensureDockerContainer e dk sid d = (Inr (trim out), d))"
proof -
  have a: "has_row d sid \<longrightarrow> saveContainerInfo e sid cid d = d"
    by (simp add: saveContainerInfo_existing)
  have b: "\<not> has_row d sid \<longrightarrow>
        dockerContainers (saveContainerInfo e sid cid d) =
          dockerContainers d
          @ [\<lparr>container_row_id = randomUUID e 0, containerId = cid,
              container_sessionId = sid, container_createdAt = now e 0\<rparr>]"
    by (simp add: saveContainerInfo_new)
  have c: "has_row d sid \<longrightarrow> snd (ensureDockerContainer e dk sid d) = d"
    by (simp add: ensureDockerContainer_existing)
  have d: "has_row d sid \<and> docker_ps_all dk = Inr listing \<and> trim listing = []
        \<and> docker_run dk 0 = Inr out
        \<longrightarrow> ensureDockerContainer e dk sid d = (Inr (trim out), d)"
    by (simp add: ensureDockerContainer_def reuseContainer_blank saveContainerInfo_existing Let_def)
  from a b c d show ?thesis
    by blast
qed

theorem saveContainerInfo_write_once_witness:
  "has_row example_handles ''s1''
   \<and> ensureDockerContainer (sample_env 900) example_docker ''s1'' example_handles
       = (Inr ''new456'', example_handles)
   \<and> map containerId (dockerContainers example_handles) = [''old123'']
   \<and> map containerId (dockerContainers (saveContainerInfo (sample_env 900) ''s2'' ''new456'' example_handles))
       = [''old123'', ''new456'']"
  using saveContainerInfo_write_once
    [of example_handles "''s1''" "sample_env 900" "''new456''" example_docker "[]"
        "''new456\<newline>''"]
    saveContainerInfo_write_once
    [of example_handles "''s2''" "sample_env 900" "''new456''" example_docker "[]"
        "''new456\<newline>''"]
  by (simp add: has_row_def example_handles_def example_docker_def trim_def is_js_space_def)

section \<open>Properties of the agent loop\<close>

text \<open>
  The loop step by step: a failure that is not an overflow on the first attempt ends the
  loop with the error turn appended to the working list; an overflow on the first attempt
  runs the compaction with \<open>keepLast = 4\<close>, replaces the stored turns and goes to the
  second attempt; a success runs the rest of the \<open>try\<close> block.
\<close>

lemma attemptLoop_failure:
  assumes "attempt < 2" and "chat w attempt (working st) = Inl err"
    and "\<not> (isContextOverflowError err \<and> attempt = 0)"
    and "get_message err = Inr m"
  shows "attemptLoop w sid attempt st =
     Inr (st\<lparr>working := working st @ [\<lparr>role = Assistant, content = error_text m\<rparr>],
            trace := trace st @ [ChatCall attempt]\<rparr>)"
  using assms by (subst attemptLoop.simps) auto

lemma attemptLoop_handler_raises:
  assumes "attempt < 2" and "chat w attempt (working st) = Inl err"
    and "\<not> (isContextOverflowError err \<and> attempt = 0)"
    and "get_message err = Inl raised"
  shows "attemptLoop w sid attempt st = Inl raised"
  using assms by (subst attemptLoop.simps) auto

lemma attemptLoop_overflow_retry:
  assumes "chat w 0 (working st) = Inl err" and "isContextOverflowError err"
  shows "attemptLoop w sid 0 st =
     attemptLoop w sid 1 (compactAndPersist w sid 4 (st\<lparr>trace := trace st @ [ChatCall 0]\<rparr>))"
  using assms by (subst attemptLoop.simps) simp

lemma attemptLoop_success:
  assumes "attempt < 2" and "chat w attempt (working st) = Inr res"
  shows "attemptLoop w sid attempt st =
     Inr (onChatSuccess w sid res (st\<lparr>trace := trace st @ [ChatCall attempt]\<rparr>))"
  using assms by (subst attemptLoop.simps) simp

lemma attemptLoop_done: "2 \<le> attempt \<Longrightarrow> attemptLoop w sid attempt st = Inr st"
  by (subst attemptLoop.simps) simp

lemma attemptLoop_failure_cases:
  assumes "attempt < 2" and "chat w attempt (working st) = Inl err"
    and "\<not> (isContextOverflowError err \<and> attempt = 0)"
    and "attemptLoop w sid attempt st = Inr st'"
  shows "\<exists>m. st' = st\<lparr>working := working st @ [\<lparr>role = Assistant, content = error_text m\<rparr>],
                       trace := trace st @ [ChatCall attempt]\<rparr>"
proof (cases "get_message err")
  case (Inl raised)
  with assms show ?thesis
    by (simp add: attemptLoop_handler_raises)
next
  case (Inr m)
  with assms show ?thesis
    by (auto simp: attemptLoop_failure)
qed

lemma chat_calls_compactAndPersist:
  "filter is_chat (trace (compactAndPersist w sid k st)) = filter is_chat (trace st)"
  by (simp add: compactAndPersist_def Let_def)

lemma chat_calls_onChatSuccess:
  "filter is_chat (trace (onChatSuccess w sid res st)) = filter is_chat (trace st)"
  by (simp add: onChatSuccess_def Let_def chat_calls_compactAndPersist)

text \<open>
  The second attempt makes one model call and the loop ends: there is no third attempt.
\<close>

lemma chat_calls_second:
  assumes "attemptLoop w sid 1 st = Inr st'"
  shows "filter is_chat (trace st') = filter is_chat (trace st) @ [ChatCall 1]"
proof (cases "chat w 1 (working st)")
  case (Inl err)
  with assms obtain m where
    "st' = st\<lparr>working := working st @ [\<lparr>role = Assistant, content = error_text m\<rparr>],
              trace := trace st @ [ChatCall 1]\<rparr>"
    using attemptLoop_failure_cases [of 1 w st err sid st'] by auto
  then show ?thesis
    by simp
next
  case (Inr res)
  with assms show ?thesis
    by (auto simp: attemptLoop_success chat_calls_onChatSuccess)
qed

lemma chat_calls_first:
  assumes "attemptLoop w sid 0 st = Inr st'"
  shows "filter is_chat (trace st') =
     filter is_chat (trace st)
     @ (case chat w 0 (working st) of
          Inr res \<Rightarrow> [ChatCall 0]
        | Inl err \<Rightarrow> if isContextOverflowError err then [ChatCall 0, ChatCall 1] else [ChatCall 0])"
proof (cases "chat w 0 (working st)")
  case (Inr res)
  with assms show ?thesis
    by (auto simp: attemptLoop_success chat_calls_onChatSuccess)
next
  case (Inl err)
  show ?thesis
  proof (cases "isContextOverflowError err")
    case True
    from assms have "attemptLoop w sid 1
        (compactAndPersist w sid 4 (st\<lparr>trace := trace st @ [ChatCall 0]\<rparr>)) = Inr st'"
      by (simp only: attemptLoop_overflow_retry [OF Inl True])
    then have "filter is_chat (trace st') =
        filter is_chat (trace (st\<lparr>trace := trace st @ [ChatCall 0]\<rparr>)) @ [ChatCall 1]"
      by (simp only: chat_calls_second chat_calls_compactAndPersist)
    with Inl True show ?thesis
      by simp
  next
    case False
    with Inl assms obtain m where
      "st' = st\<lparr>working := working st @ [\<lparr>role = Assistant, content = error_text m\<rparr>],
                trace := trace st @ [ChatCall 0]\<rparr>"
      using attemptLoop_failure_cases [of 0 w st err sid st'] by auto
    with Inl False show ?thesis
      by simp
  qed
qed

lemma emergency_compactAndPersist:
  "filter (\<lambda>ev. ev = Compacted 4) (trace (compactAndPersist w sid k st)) =
     filter (\<lambda>ev. ev = Compacted 4) (trace st) @ (if k = 4 then [Compacted 4] else [])"
  by (simp add: compactAndPersist_def Let_def)

lemma emergency_onChatSuccess:
  "filter (\<lambda>ev. ev = Compacted 4) (trace (onChatSuccess w sid res st)) =
     filter (\<lambda>ev. ev = Compacted 4) (trace st)"
  by (simp add: onChatSuccess_def Let_def emergency_compactAndPersist DEFAULT_KEEP_LAST_def)

lemma emergency_second:
  assumes "attemptLoop w sid 1 st = Inr st'"
  shows "filter (\<lambda>ev. ev = Compacted 4) (trace st') = filter (\<lambda>ev. ev = Compacted 4) (trace st)"
proof (cases "chat w 1 (working st)")
  case (Inl err)
  with assms obtain m where
    "st' = st\<lparr>working := working st @ [\<lparr>role = Assistant, content = error_text m\<rparr>],
              trace := trace st @ [ChatCall 1]\<rparr>"
    using attemptLoop_failure_cases [of 1 w st err sid st'] by auto
  then show ?thesis
    by simp
next
  case (Inr res)
  with assms show ?thesis
    by (auto simp: attemptLoop_success emergency_onChatSuccess)
qed

text \<open>
  The compaction with \<open>keepLast = 4\<close> runs once when the first attempt fails with an
  overflow, and not at all otherwise.
\<close>

lemma emergency_first:
  assumes "attemptLoop w sid 0 st = Inr st'"
  shows "filter (\<lambda>ev. ev = Compacted 4) (trace st') =
     filter (\<lambda>ev. ev = Compacted 4) (trace st)
     @ (case chat w 0 (working st) of
          Inr res \<Rightarrow> []
        | Inl err \<Rightarrow> if isContextOverflowError err then [Compacted 4] else [])"
proof (cases "chat w 0 (working st)")
  case (Inr res)
  with assms show ?thesis
    by (auto simp: attemptLoop_success emergency_onChatSuccess)
next
  case (Inl err)
  show ?thesis
  proof (cases "isContextOverflowError err")
    case True
    from assms have "attemptLoop w sid 1
        (compactAndPersist w sid 4 (st\<lparr>trace := trace st @ [ChatCall 0]\<rparr>)) = Inr st'"
      by (simp only: attemptLoop_overflow_retry [OF Inl True])
    then have "filter (\<lambda>ev. ev = Compacted 4) (trace st') =
        filter (\<lambda>ev. ev = Compacted 4) (trace (st\<lparr>trace := trace st @ [ChatCall 0]\<rparr>))
        @ [Compacted 4]"
      by (simp only: emergency_second emergency_compactAndPersist refl if_True)
    with Inl True show ?thesis
      by simp
  next
    case False
    with Inl assms obtain m where
      "st' = st\<lparr>working := working st @ [\<lparr>role = Assistant, content = error_text m\<rparr>],
                trace := trace st @ [ChatCall 0]\<rparr>"
      using attemptLoop_failure_cases [of 0 w st err sid st'] by auto
    with Inl False show ?thesis
      by simp
  qed
qed

text \<open>
  A failure that does not lead to the retry leaves the database as it was.
\<close>

lemma db_after_failure:
  assumes "attempt < 2" and "chat w attempt (working st) = Inl err"
    and "\<not> (isContextOverflowError err \<and> attempt = 0)"
    and "attemptLoop w sid attempt st = Inr st'"
  shows "db st' = db st"
  using attemptLoop_failure_cases [OF assms] by auto

lemma attemptLoop_overflow_twice:
  "(case attemptLoop overflow_world ''s1'' 0 example_state of
      Inl raised \<Rightarrow> False
    | Inr st' \<Rightarrow>
        trace st' =
          [ChatCall 0, Compacted 4, ReplaceAll [\<lparr>role = User, content = ''hello''\<rparr>], ChatCall 1]
        \<and> loadMessages (db st') ''s1'' = [\<lparr>role = User, content = ''hello''\<rparr>])"
  by code_simp

lemma attemptLoop_overflow_once:
  "(case attemptLoop overflow_once_world ''s1'' 0 example_state of
      Inl raised \<Rightarrow> False
    | Inr st' \<Rightarrow>
        trace st' =
          [ChatCall 0, Compacted 4, ReplaceAll [\<lparr>role = User, content = ''hello''\<rparr>], ChatCall 1,
           Appended Assistant ''Done.'']
        \<and> loadMessages (db st') ''s1''
            = [\<lparr>role = User, content = ''hello''\<rparr>, \<lparr>role = Assistant, content = ''Done.''\<rparr>])"
  by code_simp

text \<open>
  C4. The model call fails on the first attempt with \<open>Connection reset\<close>, which is not an
  overflow. The loop makes no further attempt and appends the error turn to the working
  list, but it stores nothing: the database is the one before the loop, and
  \<open>loadMessages\<close> returns the user's turn alone.
\<close>

theorem attemptLoop_error_turn_not_stored:
  "chat network_error_world 0 (working example_state) = Inl (JsError (Some ''Connection reset''))
   \<and> \<not> isContextOverflowError (JsError (Some ''Connection reset''))
   \<and> attemptLoop network_error_world ''s1'' 0 example_state
       = Inr (example_state
               \<lparr>working := [\<lparr>role = User, content = ''hello''\<rparr>,
                            \<lparr>role = Assistant, content = ''Error: Connection reset''\<rparr>],
                 trace := [ChatCall 0]\<rparr>)
   \<and> db (example_state
           \<lparr>working := [\<lparr>role = User, content = ''hello''\<rparr>,
                        \<lparr>role = Assistant, content = ''Error: Connection reset''\<rparr>],
             trace := [ChatCall 0]\<rparr>) = db example_state
   \<and> loadMessages
         (db (example_state
               \<lparr>working := [\<lparr>role = User, content = ''hello''\<rparr>,
                            \<lparr>role = Assistant, content = ''Error: Connection reset''\<rparr>],
                 trace := [ChatCall 0]\<rparr>)) ''s1''
       = [\<lparr>role = User, content = ''hello''\<rparr>]"
proof -
  have a: "chat network_error_world 0 (working example_state)
      = Inl (JsError (Some ''Connection reset''))"
    by (simp add: network_error_world_def)
  have b: "\<not> isContextOverflowError (JsError (Some ''Connection reset''))"
    by code_simp
  have m: "get_message (JsError (Some ''Connection reset'')) = Inr (Some ''Connection reset'')"
    by (simp add: get_message_def)
  have "attemptLoop network_error_world ''s1'' 0 example_state =
      Inr (example_state\<lparr>working := working example_state
          @ [\<lparr>role = Assistant, content = error_text (Some ''Connection reset'')\<rparr>],
        trace := trace example_state @ [ChatCall 0]\<rparr>)"
    using a b m by (intro attemptLoop_failure) simp_all
  then have run: "attemptLoop network_error_world ''s1'' 0 example_state
       = Inr (example_state
               \<lparr>working := [\<lparr>role = User, content = ''hello''\<rparr>,
                            \<lparr>role = Assistant, content = ''Error: Connection reset''\<rparr>],
                 trace := [ChatCall 0]\<rparr>)"
    by (simp add: example_state_def error_text_def)
  have f: "loadMessages (db example_state) ''s1'' = [\<lparr>role = User, content = ''hello''\<rparr>]"
    by code_simp
  from a b run f show ?thesis
    by simp
qed

text \<open>
  The verbose variant of the agent stores the error turn at the same input.
\<close>

lemma onChatFailure_verbose_stores:
  "(case onChatFailure_verbose network_error_world ''s1'' (JsError (Some ''Connection reset''))
           example_state of
      Inl raised \<Rightarrow> False
    | Inr st' \<Rightarrow>
        loadMessages (db st') ''s1''
          = [\<lparr>role = User, content = ''hello''\<rparr>,
             \<lparr>role = Assistant, content = ''Error: Connection reset''\<rparr>])"
  by code_simp

text \<open>
  A thrown \<open>null\<close> is no overflow, and reading its message in the handler raises: the
  exception leaves the loop.
\<close>

lemma attemptLoop_thrown_null:
  assumes "attempt < 2" and "chat w attempt (working st) = Inl ThrownNull"
  shows "attemptLoop w sid attempt st = Inl TypeError"
proof -
  have no: "\<not> (isContextOverflowError ThrownNull \<and> attempt = 0)"
    by (simp add: isContextOverflowError_def toLowerCase_def)
  have raised: "get_message ThrownNull = Inl TypeError"
    by (simp add: get_message_def)
  show ?thesis
    by (rule attemptLoop_handler_raises [OF assms no raised])
qed

end
